theory Spec2Isabelle
  imports Complex_Main "HOL-Library.Log_Nat"
begin

section \<open>Conventions\<close>

text \<open>
  A Go \<^verbatim>\<open>string\<close> is a sequence of bytes and so is a \<^verbatim>\<open>[]byte\<close>: both are
  \<^typ>\<open>string\<close> here, \<^verbatim>\<open>len\<close> is \<^const>\<open>length\<close> and \<^verbatim>\<open>+\<close> on strings is
  \<^verbatim>\<open>@\<close>. A nil pointer or nil slice is \<^const>\<open>None\<close>. Go's \<^verbatim>\<open>int\<close> is
  \<^typ>\<open>int\<close>: the theorems about \<^verbatim>\<open>calculateMetadata\<close>, which computes with it, state
  the range of their numbers.

  A function that can panic returns a \<open>result\<close>: the panic is a value, with its message.
\<close>

datatype 'a result = Return 'a | Panic string

section \<open>internal/data/filters.go\<close>

record Filters =
  Page :: int
  PageSize :: int
  Sort :: string
  SortSafeList :: "string list"

text \<open>\<^verbatim>\<open>strings.HasPrefix\<close> and \<^verbatim>\<open>strings.TrimPrefix\<close> of the Go standard library.\<close>

definition HasPrefix :: "string \<Rightarrow> string \<Rightarrow> bool" where
  "HasPrefix s prefix = (length prefix \<le> length s \<and> take (length prefix) s = prefix)"

definition TrimPrefix :: "string \<Rightarrow> string \<Rightarrow> string" where
  "TrimPrefix s prefix = (if HasPrefix s prefix then drop (length prefix) s else s)"

text \<open>
  The \<^verbatim>\<open>for _, safeValue := range f.SortSafeList\<close> loop of \<^verbatim>\<open>sortColumn\<close>, over the
  part of the safelist that is still to be visited; the panic after the loop is the
  empty list's case.
\<close>

fun sortColumn_range :: "string \<Rightarrow> string list \<Rightarrow> string result" where
  "sortColumn_range key [] = Panic (''unsafe sort parameter: '' @ key)"
| "sortColumn_range key (safeValue # rest) =
     (if key = safeValue then Return (TrimPrefix key ''-'')
      else sortColumn_range key rest)"

definition sortColumn :: "Filters \<Rightarrow> string result" where
  "sortColumn f = sortColumn_range (Sort f) (SortSafeList f)"

definition sortDirection :: "Filters \<Rightarrow> string" where
  "sortDirection f = (if HasPrefix (Sort f) ''-'' then ''DESC'' else ''ASC'')"

definition limit :: "Filters \<Rightarrow> int" where
  "limit f = PageSize f"

definition offset :: "Filters \<Rightarrow> int" where
  "offset f = (Page f - 1) * PageSize f"

subsection \<open>calculateMetadata and its float64 arithmetic\<close>

text \<open>
  \<^verbatim>\<open>calculateMetadata\<close> converts two ints to \<^verbatim>\<open>float64\<close>, divides, takes \<^verbatim>\<open>math.Ceil\<close>
  and converts back. A finite \<^verbatim>\<open>float64\<close> is the rational number it denotes. A conversion
  to \<^verbatim>\<open>float64\<close> and a division give the exact result rounded to the nearest number with
  a significand of 53 bits, to the one with the even significand when two are as near
  (IEEE 754, the rounding of Go's arithmetic): \<open>round53\<close>. The range of the exponent is left
  out: the numbers of this computation are integers of 64 bits and quotients of two.

  \<open>exponent x\<close> is the integer \<open>e\<close> with \<open>2^e \<le> x < 2^(e+1)\<close>, for a positive \<open>x\<close>.
\<close>

datatype float64 = Finite rat | PosInf | NegInf | NaN

definition exponent :: "rat \<Rightarrow> int" where
  "exponent x =
     (let (p, q) = quotient_of x; k = bitlen p - bitlen q
      in if 2 powi k \<le> x then k else k - 1)"

definition round_half_even :: "rat \<Rightarrow> int" where
  "round_half_even m =
     (let n = \<lfloor>m\<rfloor>; r = m - of_int n
      in if r < 1 / 2 then n else if 1 / 2 < r then n + 1 else if even n then n else n + 1)"

definition round53 :: "rat \<Rightarrow> rat" where
  "round53 x =
     (if x = 0 then 0
      else let ulp = 2 powi (exponent \<bar>x\<bar> - 52)
           in sgn x * of_int (round_half_even (\<bar>x\<bar> / ulp)) * ulp)"

text \<open>The conversion \<^verbatim>\<open>float64(n)\<close> of an int: its result is finite.\<close>

definition float64_of_int :: "int \<Rightarrow> rat" where
  "float64_of_int n = round53 (of_int n)"

text \<open>The division of two finite numbers; a division by zero gives an infinity or a NaN.\<close>

definition float64_div :: "rat \<Rightarrow> rat \<Rightarrow> float64" where
  "float64_div x y =
     (if y = 0 then (if x = 0 then NaN else if 0 < x then PosInf else NegInf)
      else Finite (round53 (x / y)))"

fun Ceil :: "float64 \<Rightarrow> float64" where
  "Ceil (Finite x) = Finite (of_int \<lceil>x\<rceil>)"
| "Ceil PosInf = PosInf"
| "Ceil NegInf = NegInf"
| "Ceil NaN = NaN"

text \<open>
  The conversion \<^verbatim>\<open>int(f)\<close> drops the fraction. Where no int of 64 bits holds the value, Go
  leaves the result to the implementation: \<open>impl\<close> is that choice.
\<close>

fun int_of_float64 :: "(float64 \<Rightarrow> int) \<Rightarrow> float64 \<Rightarrow> int" where
  "int_of_float64 impl (Finite x) =
     (if - (2 ^ 63) \<le> x \<and> x < 2 ^ 63 then (if 0 \<le> x then \<lfloor>x\<rfloor> else \<lceil>x\<rceil>)
      else impl (Finite x))"
| "int_of_float64 impl PosInf = impl PosInf"
| "int_of_float64 impl NegInf = impl NegInf"
| "int_of_float64 impl NaN = impl NaN"

record Metadata =
  CurrentPage :: int
  PageSize :: int
  FirstPage :: int
  LastPage :: int
  TotalRecords :: int

definition calculateMetadata :: "(float64 \<Rightarrow> int) \<Rightarrow> int \<Rightarrow> int \<Rightarrow> int \<Rightarrow> Metadata" where
  "calculateMetadata impl totalRecords page pagesize =
     (if totalRecords = 0
      then \<lparr>CurrentPage = 0, PageSize = 0, FirstPage = 0, LastPage = 0, TotalRecords = 0\<rparr>
      else
        \<lparr>CurrentPage = page, PageSize = pagesize, FirstPage = 1,
         LastPage = int_of_float64 impl
           (Ceil (float64_div (float64_of_int totalRecords) (float64_of_int pagesize))),
         TotalRecords = totalRecords\<rparr>)"

text \<open>The choice of amd64, whose conversion instruction gives the least int.\<close>

definition amd64 :: "float64 \<Rightarrow> int" where
  "amd64 f = - (2 ^ 63)"

section \<open>internal/password/hash.go\<close>

text \<open>
  The hashing primitive is the library \<^verbatim>\<open>golang.org/x/crypto/bcrypt\<close>, which is not part
  of the repository: \<open>Set\<close> and \<open>Matches\<close> take it as a parameter, a pair of functions.
  Of its error values the code tells one from all the others, so \<open>OtherError\<close> stands for
  every other error of the library, with its text. None of them wraps another error:
  \<^verbatim>\<open>errors.Is\<close> is equality. \<open>GenerateFromPassword\<close> draws a salt at random; as a
  parameter it is one such choice for each password and cost.
\<close>

datatype bcrypt_error = ErrMismatchedHashAndPassword | OtherError string

definition errors_Is :: "bcrypt_error \<Rightarrow> bcrypt_error \<Rightarrow> bool" where
  "errors_Is err target = (err = target)"

record bcrypt =
  GenerateFromPassword :: "string \<Rightarrow> int \<Rightarrow> bcrypt_error + string"
  CompareHashAndPassword :: "string \<Rightarrow> string \<Rightarrow> bcrypt_error option"

record Password =
  PlainText :: "string option"
  Hash :: "string option"

text \<open>A nil slice handed to the library is a slice of length 0.\<close>

definition bytes :: "string option \<Rightarrow> string" where
  "bytes b = (case b of None \<Rightarrow> [] | Some s \<Rightarrow> s)"

text \<open>
  \<open>Set\<close> writes through its pointer receiver: the model returns the \<open>Password\<close> after the
  call beside the error (\<open>None\<close> is nil). \<open>Matches\<close> only reads it.
\<close>

definition Set :: "bcrypt \<Rightarrow> Password \<Rightarrow> string \<Rightarrow> bcrypt_error option \<times> Password" where
  "Set lib p plainTestPassword =
     (case GenerateFromPassword lib plainTestPassword 12 of
        Inl err \<Rightarrow> (Some err, p)
      | Inr hash \<Rightarrow> (None, p\<lparr>PlainText := Some plainTestPassword, Hash := Some hash\<rparr>))"

definition Matches :: "bcrypt \<Rightarrow> Password \<Rightarrow> string \<Rightarrow> bool \<times> bcrypt_error option" where
  "Matches lib p plainTestPassword =
     (case CompareHashAndPassword lib (bytes (Hash p)) plainTestPassword of
        Some err \<Rightarrow>
          (if errors_Is err ErrMismatchedHashAndPassword then (False, None)
           else (False, Some err))
      | None \<Rightarrow> (True, None))"

text \<open>
  The key of bcrypt is the password with a zero byte after it, repeated to 72 bytes: the
  key schedule reads 18 words of 4 bytes, going round the key. The library refuses to hash
  a password of more than 72 bytes and compares a candidate of any length.
\<close>

definition bcrypt_key :: "string \<Rightarrow> string" where
  "bcrypt_key password =
     (let ckey = password @ [CHR 0x00]
      in map (\<lambda>i. ckey ! (i mod length ckey)) [0..<72])"


text \<open>
  A stand-in for the library that meets the contract, for evaluating \<open>Set\<close> and \<open>Matches\<close>
  on concrete passwords: its hash is a version prefix and the password in clear.
\<close>

definition plain_bcrypt :: bcrypt where
  "plain_bcrypt =
     \<lparr>GenerateFromPassword = (\<lambda>password cost.
        if 72 < length password then Inl (OtherError ''bcrypt: password length exceeds 72 bytes'')
        else Inr (''$2a$'' @ password)),
      CompareHashAndPassword = (\<lambda>hash password.
        if \<not> HasPrefix hash ''$2a$'' then Some (OtherError ''crypto/bcrypt: bad hash'')
        else if bcrypt_key password = bcrypt_key (drop 4 hash) then None
        else Some ErrMismatchedHashAndPassword)\<rparr>"

section \<open>internal/data/users.go\<close>

subsection \<open>Errors\<close>

text \<open>
  What \<^verbatim>\<open>QueryRowContext(...).Scan(...)\<close> can return: \<^verbatim>\<open>sql.ErrNoRows\<close>, or any other
  error of \<^verbatim>\<open>database/sql\<close> and the driver, with its text. \<open>Error\<close> is the method
  \<^verbatim>\<open>err.Error()\<close>, \<open>errors_Is_ErrNoRows\<close> is \<^verbatim>\<open>errors.Is(err, sql.ErrNoRows)\<close>.
\<close>

datatype sql_error = ErrNoRows | DriverError string

fun Error :: "sql_error \<Rightarrow> string" where
  "Error ErrNoRows = ''sql: no rows in result set''"
| "Error (DriverError message) = message"

fun errors_Is_ErrNoRows :: "sql_error \<Rightarrow> bool" where
  "errors_Is_ErrNoRows ErrNoRows = True"
| "errors_Is_ErrNoRows (DriverError message) = False"

text \<open>
  What the repository returns: its own three error values (\<open>ErrRecordNotFound\<close> and
  \<open>ErrEditConflict\<close> are declared in another file of the package), or the store's error
  as it came (\<^verbatim>\<open>return err\<close>).
\<close>

datatype error = ErrDuplicateEmail | ErrRecordNotFound | ErrEditConflict | Store sql_error

text \<open>
  The text that the driver gives a violation of a unique constraint, by the constraint's
  name, as the two literals of \<open>Insert\<close> and \<open>Update\<close> spell it.
\<close>

definition unique_violation :: "string \<Rightarrow> string" where
  "unique_violation constraint =
     ''pq: duplicate key value violates unique constraint '' @ [CHR 0x22] @ constraint @ [CHR 0x22]"

subsection \<open>The store\<close>

text \<open>
  Modelled from the spec: the schema of the two tables, which the repository keeps in
  migration files outside the given sources. \<open>users\<close>: id (generated, unique),
  created_at (generated), name, email (unique), password_hash, activated, version (starts
  at 1). \<open>tokens\<close>: hash, user_id, expiry, scope. The unique constraint on \<open>email\<close> is
  \<^verbatim>\<open>users_email_key\<close>, as the comment in \<open>Insert\<close> names it (and as PostgreSQL names
  the constraint of a column \<open>email\<close> of a table \<open>users\<close>). Times are numbers.

  \<open>fault\<close> is a failure of the connection or of the driver (a timeout of the 3 second
  context, a lost connection): while it is set, every statement fails with its text.
\<close>

record user_row =
  row_id :: int
  row_created_at :: int
  row_name :: string
  row_email :: string
  row_password_hash :: "string option"
  row_activated :: bool
  row_version :: int

record token_row =
  tok_hash :: string
  tok_user_id :: int
  tok_expiry :: int
  tok_scope :: string

record DB =
  users :: "user_row list"
  tokens :: "token_row list"
  next_id :: int
  clock :: int
  fault :: "string option"

definition users_email_key :: string where
  "users_email_key = ''users_email_key''"

text \<open>
  The statement of \<open>Insert\<close>:
  \<^verbatim>\<open>INSERT INTO users (name, email, password_hash, activated) VALUES ($1, $2, $3, $4)
  RETURNING id, created_at, version\<close>
\<close>

definition exec_insert ::
  "DB \<Rightarrow> string \<Rightarrow> string \<Rightarrow> string option \<Rightarrow> bool \<Rightarrow> (sql_error + int \<times> int \<times> int) \<times> DB" where
  "exec_insert db name email password_hash activated =
     (case fault db of
        Some message \<Rightarrow> (Inl (DriverError message), db)
      | None \<Rightarrow>
          if email \<in> set (map row_email (users db))
          then (Inl (DriverError (unique_violation users_email_key)), db)
          else
            (Inr (next_id db, clock db, 1),
             db\<lparr>users := users db @
                   [\<lparr>row_id = next_id db, row_created_at = clock db, row_name = name,
                     row_email = email, row_password_hash = password_hash,
                     row_activated = activated, row_version = 1\<rparr>],
                next_id := next_id db + 1\<rparr>))"

text \<open>
  The statement of \<open>Update\<close>:
  \<^verbatim>\<open>UPDATE users SET name = $1, email= $2, password_hash=$3, activated=$4,
  version=version + 1 WHERE id = $5 AND version=$6 RETURNING version\<close>
  It rewrites every row that the \<^verbatim>\<open>WHERE\<close> clause selects and returns the new version of
  each; \<^verbatim>\<open>QueryRowContext\<close> reads the first row returned, and with none \<^verbatim>\<open>Scan\<close> returns
  \<^verbatim>\<open>sql.ErrNoRows\<close>. The statement fails as a whole, changing nothing, when a rewritten
  row would share its email with another row.
\<close>

definition update_row :: "string \<Rightarrow> string \<Rightarrow> string option \<Rightarrow> bool \<Rightarrow> user_row \<Rightarrow> user_row" where
  "update_row name email password_hash activated r =
     r\<lparr>row_name := name, row_email := email, row_password_hash := password_hash,
       row_activated := activated, row_version := row_version r + 1\<rparr>"

definition exec_update ::
  "DB \<Rightarrow> string \<Rightarrow> string \<Rightarrow> string option \<Rightarrow> bool \<Rightarrow> int \<Rightarrow> int \<Rightarrow> (sql_error + int) \<times> DB" where
  "exec_update db name email password_hash activated user_id version =
     (case fault db of
        Some message \<Rightarrow> (Inl (DriverError message), db)
      | None \<Rightarrow>
          let selected = (\<lambda>r. row_id r = user_id \<and> row_version r = version);
              rows = map (\<lambda>r. if selected r then update_row name email password_hash activated r
                               else r) (users db)
          in (case filter selected (users db) of
                [] \<Rightarrow> (Inl ErrNoRows, db)
              | r # others \<Rightarrow>
                  if 1 < length (filter (\<lambda>r. row_email r = email) rows)
                  then (Inl (DriverError (unique_violation users_email_key)), db)
                  else (Inr (row_version r + 1), db\<lparr>users := rows\<rparr>)))"

text \<open>
  The statement of \<open>GetForToken\<close>:
  \<^verbatim>\<open>SELECT users.id, users.created_at, users.name, users.email, users.password_hash,
  users.activated, users.version FROM users INNER JOIN tokens ON users.id = tokens.user_id
  WHERE tokens.hash = $1 AND tokens.scope = $2 AND tokens.expiry > $3\<close>
  It changes nothing; \<^verbatim>\<open>QueryRowContext\<close> reads the first row of the join.
\<close>

definition joined_for_token :: "DB \<Rightarrow> string \<Rightarrow> string \<Rightarrow> int \<Rightarrow> user_row list" where
  "joined_for_token db hash scope now =
     concat (map (\<lambda>u. map (\<lambda>t. u)
               (filter (\<lambda>t. row_id u = tok_user_id t \<and> tok_hash t = hash \<and>
                             tok_scope t = scope \<and> tok_expiry t > now) (tokens db)))
            (users db))"

definition exec_select_for_token :: "DB \<Rightarrow> string \<Rightarrow> string \<Rightarrow> int \<Rightarrow> sql_error + user_row" where
  "exec_select_for_token db hash scope now =
     (case fault db of
        Some message \<Rightarrow> Inl (DriverError message)
      | None \<Rightarrow>
          (case joined_for_token db hash scope now of
             [] \<Rightarrow> Inl ErrNoRows
           | u # others \<Rightarrow> Inr u))"

subsection \<open>The user and its validation\<close>

record User =
  ID :: int
  CreatedAt :: int
  Name :: string
  Email :: string
  Password :: Password
  Activated :: bool
  Version :: int

text \<open>
  The package \<^verbatim>\<open>internal/validator\<close> is outside the given sources. \<open>Check\<close>, the method
  \<^verbatim>\<open>v.Check(ok, key, message)\<close>, and \<open>MatchesEmailRX\<close>, which is
  \<^verbatim>\<open>validator.Matches(_, validator.EmailRX)\<close>, are parameters. The validator is a pointer:
  each function returns the validator after the call.
\<close>

record 'v validator =
  Check :: "'v \<Rightarrow> bool \<Rightarrow> string \<Rightarrow> string \<Rightarrow> 'v"
  MatchesEmailRX :: "string \<Rightarrow> bool"

text \<open>
  Modelled from the spec: \<^verbatim>\<open>validator.NotIn\<close>, of the same package: the value "must not
  appear in" the list. The list \<^verbatim>\<open>password.CommonPasswords\<close>, declared in another file of
  \<^verbatim>\<open>internal/password\<close>, is a parameter of the functions that read it.
\<close>

definition NotIn :: "string \<Rightarrow> string list \<Rightarrow> bool" where
  "NotIn v list = (v \<notin> set list)"

definition ValidateEmail :: "'v validator \<Rightarrow> 'v \<Rightarrow> string \<Rightarrow> 'v" where
  "ValidateEmail V v email =
     (let v = Check V v (email \<noteq> []) ''email'' ''must be provided''
      in Check V v (MatchesEmailRX V email) ''email'' ''must be a valid email address'')"

definition ValidatePassowrdPlaintext :: "'v validator \<Rightarrow> string list \<Rightarrow> 'v \<Rightarrow> string \<Rightarrow> 'v" where
  "ValidatePassowrdPlaintext V CommonPasswords v pass =
     (let v = Check V v (pass \<noteq> []) ''password'' ''must be provided'';
          v = Check V v (length pass \<ge> 8) ''password'' ''must be at least 8 bytes long'';
          v = Check V v (length pass \<le> 72) ''password'' ''must not be more than 72 bytes long''
      in Check V v (NotIn pass CommonPasswords) ''Password'' ''Password is too common'')"

text \<open>
  \<open>ValidateUser\<close> returns the validator after its checks and how the call ended: the
  checks have run when it panics.
\<close>

definition ValidateUser :: "'v validator \<Rightarrow> string list \<Rightarrow> 'v \<Rightarrow> User \<Rightarrow> 'v \<times> unit result" where
  "ValidateUser V CommonPasswords v user =
     (let v = Check V v (Name user \<noteq> []) ''name'' ''must be provided'';
          v = Check V v (length (Name user) \<le> 500) ''name'' ''must not be more than 500 bytes long'';
          v = ValidateEmail V v (Email user);
          v = (case PlainText (Password user) of
                 Some plain \<Rightarrow> ValidatePassowrdPlaintext V CommonPasswords v plain
               | None \<Rightarrow> v)
      in if Hash (Password user) = None
         then (v, Panic ''missing password hash for user'')
         else (v, Return ()))"

subsection \<open>The repository\<close>

text \<open>
  Each method returns its results and the store after the call; \<open>Insert\<close> and \<open>Update\<close>
  write into the user they are given, so they return the user too. \<^verbatim>\<open>time.Now()\<close> and
  \<^verbatim>\<open>sha256.Sum256\<close> (of the standard library) are parameters of \<open>GetForToken\<close>.
\<close>

definition Insert :: "DB \<Rightarrow> User \<Rightarrow> (error option \<times> User) \<times> DB" where
  "Insert db user =
     (case exec_insert db (Name user) (Email user) (Hash (Password user)) (Activated user) of
        (Inl err, db') \<Rightarrow>
          if Error err = unique_violation ''users_email_key''
          then ((Some ErrDuplicateEmail, user), db')
          else ((Some (Store err), user), db')
      | (Inr (new_id, created_at, version), db') \<Rightarrow>
          ((None, user\<lparr>ID := new_id, CreatedAt := created_at, Version := version\<rparr>), db'))"

definition Update :: "DB \<Rightarrow> User \<Rightarrow> (error option \<times> User) \<times> DB" where
  "Update db user =
     (case exec_update db (Name user) (Email user) (Hash (Password user)) (Activated user)
             (ID user) (Version user) of
        (Inl err, db') \<Rightarrow>
          if Error err = unique_violation ''user_email_key''
          then ((Some ErrDuplicateEmail, user), db')
          else if errors_Is_ErrNoRows err
          then ((Some ErrEditConflict, user), db')
          else ((Some (Store err), user), db')
      | (Inr version, db') \<Rightarrow> ((None, user\<lparr>Version := version\<rparr>), db'))"

definition scan_user :: "user_row \<Rightarrow> User" where
  "scan_user r =
     \<lparr>ID = row_id r, CreatedAt = row_created_at r, Name = row_name r, Email = row_email r,
      Password = \<lparr>PlainText = None, Hash = row_password_hash r\<rparr>,
      Activated = row_activated r, Version = row_version r\<rparr>"

definition GetForToken :: "(string \<Rightarrow> string) \<Rightarrow> int \<Rightarrow> DB \<Rightarrow> string \<Rightarrow> string \<Rightarrow> error + User" where
  "GetForToken Sum256 now db tokenScope tokenPlainText =
     (let tokenHash = Sum256 tokenPlainText
      in case exec_select_for_token db tokenHash tokenScope now of
           Inl err \<Rightarrow>
             if errors_Is_ErrNoRows err then Inl ErrRecordNotFound else Inl (Store err)
         | Inr r \<Rightarrow> Inr (scan_user r))"

section \<open>The spec's words\<close>

text \<open>
  The two resolvers: the column is the sort token without its descending-order marker,
  the direction is descending exactly when the marker is there.
\<close>

fun strip_marker :: "string \<Rightarrow> string" where
  "strip_marker (c # col) = (if c = CHR ''-'' then col else c # col)"
| "strip_marker [] = []"

fun has_marker :: "string \<Rightarrow> bool" where
  "has_marker (c # col) = (c = CHR ''-'')"
| "has_marker [] = False"

text \<open>The rules of the validation, in the order of the spec, each with its key and message.\<close>

definition name_rules :: "string \<Rightarrow> (bool \<times> string \<times> string) list" where
  "name_rules name =
     [(name \<noteq> [], ''name'', ''must be provided''),
      (length name \<le> 500, ''name'', ''must not be more than 500 bytes long'')]"

definition email_rules :: "(string \<Rightarrow> bool) \<Rightarrow> string \<Rightarrow> (bool \<times> string \<times> string) list" where
  "email_rules pattern email =
     [(email \<noteq> [], ''email'', ''must be provided''),
      (pattern email, ''email'', ''must be a valid email address'')]"

definition password_rules :: "string list \<Rightarrow> string \<Rightarrow> (bool \<times> string \<times> string) list" where
  "password_rules denylist plain =
     [(plain \<noteq> [], ''password'', ''must be provided''),
      (8 \<le> length plain, ''password'', ''must be at least 8 bytes long''),
      (length plain \<le> 72, ''password'', ''must not be more than 72 bytes long''),
      (plain \<notin> set denylist, ''Password'', ''Password is too common'')]"

text \<open>Applying rules: one \<open>Check\<close> for each, in order.\<close>

definition apply_rules :: "'v validator \<Rightarrow> 'v \<Rightarrow> (bool \<times> string \<times> string) list \<Rightarrow> 'v" where
  "apply_rules V v rules = foldl (\<lambda>v (ok, key, message). Check V v ok key message) v rules"

section \<open>Values for evaluation\<close>

text \<open>
  A store of two users and one token, stand-ins for \<^verbatim>\<open>sha256.Sum256\<close> and for the
  validator (it lists the failed checks), and a user with no password hash.
\<close>

definition alice :: user_row where
  "alice =
     \<lparr>row_id = 1, row_created_at = 100, row_name = ''Alice'', row_email = ''alice@example.com'',
      row_password_hash = Some ''$2a$alicepass'', row_activated = True, row_version = 1\<rparr>"

definition bob :: user_row where
  "bob =
     \<lparr>row_id = 2, row_created_at = 200, row_name = ''Bob'', row_email = ''bob@example.com'',
      row_password_hash = Some ''$2a$bobpass'', row_activated = False, row_version = 3\<rparr>"

definition two_users :: DB where
  "two_users =
     \<lparr>users = [alice, bob],
      tokens = [\<lparr>tok_hash = ''sha256:T0KEN'', tok_user_id = 2, tok_expiry = 5000,
                 tok_scope = ''authentication''\<rparr>],
      next_id = 3, clock = 1000, fault = None\<rparr>"

definition tagged :: "string \<Rightarrow> string" where
  "tagged plaintext = ''sha256:'' @ plaintext"

definition carol :: User where
  "carol =
     \<lparr>ID = 0, CreatedAt = 0, Name = ''Carol'', Email = ''carol@example.com'',
      Password = \<lparr>PlainText = None, Hash = None\<rparr>, Activated = False, Version = 0\<rparr>"

definition failures :: "(string \<times> string) list validator" where
  "failures =
     \<lparr>Check = (\<lambda>v ok key message. if ok then v else v @ [(key, message)]),
      MatchesEmailRX = (\<lambda>email. CHR ''@'' \<in> set email)\<rparr>"

section \<open>The sort resolver\<close>

lemma HasPrefix_marker: "HasPrefix s ''-'' = has_marker s"
  by (cases s) (simp_all add: HasPrefix_def)

lemma TrimPrefix_marker: "TrimPrefix s ''-'' = strip_marker s"
  by (cases s) (simp_all add: TrimPrefix_def HasPrefix_def)

lemma sortColumn_range_member:
  "key \<in> set safelist \<Longrightarrow> sortColumn_range key safelist = Return (TrimPrefix key ''-'')"
  by (induction safelist) auto

lemma sortColumn_range_not_member:
  "key \<notin> set safelist \<Longrightarrow>
   sortColumn_range key safelist = Panic (''unsafe sort parameter: '' @ key)"
  by (induction safelist) auto

text \<open>
  C4. When \<open>Sort\<close> is a member of \<open>SortSafeList\<close>, \<open>sortColumn\<close> returns \<open>Sort\<close> with a
  leading \<^verbatim>\<open>-\<close> stripped, and \<open>sortDirection\<close> is \<^verbatim>\<open>DESC\<close> exactly when \<open>Sort\<close> begins
  with \<^verbatim>\<open>-\<close> and \<^verbatim>\<open>ASC\<close> otherwise. When \<open>Sort\<close> is not a member, \<open>sortColumn\<close> panics
  and returns no column name.
\<close>

theorem sortColumn_safelist:
  "(Sort f \<in> set (SortSafeList f) \<longrightarrow>
      sortColumn f = Return (strip_marker (Sort f)) \<and>
      sortDirection f = (if has_marker (Sort f) then ''DESC'' else ''ASC'')) \<and>
   (Sort f \<notin> set (SortSafeList f) \<longrightarrow>
      sortColumn f = Panic (''unsafe sort parameter: '' @ Sort f) \<and>
      (\<forall>column. sortColumn f \<noteq> Return column))"
  by (simp add: sortColumn_def sortDirection_def sortColumn_range_member
      sortColumn_range_not_member HasPrefix_marker TrimPrefix_marker)

theorem sortColumn_safelist_witness:
  "sortColumn \<lparr>Page = 1, PageSize = 20, Sort = ''-id'', SortSafeList = [''id'', ''-id'']\<rparr>
     = Return ''id'' \<and>
   sortDirection \<lparr>Page = 1, PageSize = 20, Sort = ''-id'', SortSafeList = [''id'', ''-id'']\<rparr>
     = ''DESC'' \<and>
   sortColumn \<lparr>Page = 1, PageSize = 20, Sort = ''name'', SortSafeList = [''id'', ''-id'']\<rparr>
     = Panic ''unsafe sort parameter: name''"
  using
    sortColumn_safelist [of "\<lparr>Page = 1, PageSize = 20, Sort = ''-id'', SortSafeList = [''id'', ''-id'']\<rparr>"]
    sortColumn_safelist [of "\<lparr>Page = 1, PageSize = 20, Sort = ''name'', SortSafeList = [''id'', ''-id'']\<rparr>"]
  by simp

section \<open>The credential model\<close>


text \<open>
  C2. \<open>Matches\<close> returns \<open>(false, nil)\<close> exactly when the verification primitive reports
  a mismatch of hash and plaintext; it returns \<open>(false, err)\<close> with the primitive's error
  for every other failure of the verification, never an error for a mismatch, and
  \<open>(true, nil)\<close> exactly when the primitive reports no error.
\<close>

theorem Matches_mismatch_is_not_an_error:
  "(Matches lib p candidate = (False, None)) =
     (CompareHashAndPassword lib (bytes (Hash p)) candidate = Some ErrMismatchedHashAndPassword) \<and>
   (\<forall>err. (Matches lib p candidate = (False, Some err)) =
     (CompareHashAndPassword lib (bytes (Hash p)) candidate = Some err \<and>
      err \<noteq> ErrMismatchedHashAndPassword)) \<and>
   (Matches lib p candidate = (True, None)) =
     (CompareHashAndPassword lib (bytes (Hash p)) candidate = None) \<and>
   snd (Matches lib p candidate) \<noteq> Some ErrMismatchedHashAndPassword"
  by (auto simp: Matches_def errors_Is_def split: option.splits)

text \<open>
  C10. \<open>Set\<close> is all or nothing: when the hashing primitive (called at cost 12) returns an
  error, \<open>Set\<close> returns that error and the \<open>Password\<close> is as it was before the call; when it
  returns a hash, \<open>Set\<close> returns nil, \<open>Hash\<close> is that hash and \<open>PlainText\<close> points to the
  given plaintext.
\<close>

theorem Set_all_or_nothing:
  "(\<forall>err. GenerateFromPassword lib plain 12 = Inl err \<longrightarrow> Set lib p plain = (Some err, p)) \<and>
   (\<forall>hash. GenerateFromPassword lib plain 12 = Inr hash \<longrightarrow>
      Set lib p plain = (None, \<lparr>PlainText = Some plain, Hash = Some hash\<rparr>))"
  by (simp add: Set_def)

theorem Set_all_or_nothing_witness:
  "Set plain_bcrypt \<lparr>PlainText = None, Hash = Some ''old''\<rparr> (replicate 73 CHR ''a'') =
     (Some (OtherError ''bcrypt: password length exceeds 72 bytes''),
      \<lparr>PlainText = None, Hash = Some ''old''\<rparr>) \<and>
   Set plain_bcrypt \<lparr>PlainText = None, Hash = Some ''old''\<rparr> ''pa55word'' =
     (None, \<lparr>PlainText = Some ''pa55word'', Hash = Some ''$2a$pa55word''\<rparr>)"
  using
    Set_all_or_nothing [of plain_bcrypt "replicate 73 CHR ''a''" "\<lparr>PlainText = None, Hash = Some ''old''\<rparr>"]
    Set_all_or_nothing [of plain_bcrypt "''pa55word''" "\<lparr>PlainText = None, Hash = Some ''old''\<rparr>"]
  by (simp add: plain_bcrypt_def)

section \<open>The repository\<close>

lemma exec_update_Inr:
  assumes "exec_update db name email password_hash activated uid version = (Inr v, db')"
  shows "fault db = None \<and> v = version + 1 \<and>
         (\<exists>r\<in>set (users db). row_id r = uid \<and> row_version r = version) \<and>
         db' = db\<lparr>users := map (\<lambda>r. if row_id r = uid \<and> row_version r = version
                      then update_row name email password_hash activated r else r) (users db)\<rparr>"
proof (cases "fault db")
  case (Some message)
  with assms show ?thesis by (simp add: exec_update_def)
next
  case None
  show ?thesis
  proof (cases "filter (\<lambda>r. row_id r = uid \<and> row_version r = version) (users db)")
    case Nil
    with None assms show ?thesis by (simp add: exec_update_def Let_def)
  next
    case (Cons r rs)
    then have "r \<in> set (filter (\<lambda>r. row_id r = uid \<and> row_version r = version) (users db))"
      by simp
    then have "r \<in> set (users db)" "row_id r = uid" "row_version r = version"
      by simp_all
    with None Cons assms show ?thesis
      by (auto simp: exec_update_def Let_def split: if_splits)
  qed
qed

lemma Update_nil_exec:
  assumes "Update db user = ((None, user'), db')"
  shows "\<exists>v. exec_update db (Name user) (Email user) (Hash (Password user)) (Activated user)
             (ID user) (Version user) = (Inr v, db') \<and> user' = user\<lparr>Version := v\<rparr>"
  using assms
  by (auto simp: Update_def split: prod.splits sum.splits if_splits)

text \<open>
  C7. A successful \<open>Update\<close> found a row whose id and version are the caller's; it rewrote
  the rows with that id and version and no other row; each rewritten row has the caller's
  fields and the version it had plus one; and the user has that new version, its other
  fields as they were.
\<close>

theorem Update_compare_and_swap:
  assumes "Update db user = ((None, user'), db')"
  shows "user' = user\<lparr>Version := Version user + 1\<rparr> \<and>
         (\<exists>r\<in>set (users db). row_id r = ID user \<and> row_version r = Version user) \<and>
         length (users db') = length (users db) \<and>
         (\<forall>i<length (users db).
            users db' ! i =
              (if row_id (users db ! i) = ID user \<and> row_version (users db ! i) = Version user
               then (users db ! i)\<lparr>row_name := Name user, row_email := Email user,
                      row_password_hash := Hash (Password user), row_activated := Activated user,
                      row_version := row_version (users db ! i) + 1\<rparr>
               else users db ! i))"
proof -
  from Update_nil_exec [OF assms] obtain v where
    e: "exec_update db (Name user) (Email user) (Hash (Password user)) (Activated user)
          (ID user) (Version user) = (Inr v, db')" and u: "user' = user\<lparr>Version := v\<rparr>"
    by blast
  from exec_update_Inr [OF e] u show ?thesis
    by (auto simp: update_row_def)
qed

lemma Update_bob:
  "Update two_users ((scan_user bob)\<lparr>Email := ''bob@example.org''\<rparr>) =
     ((None, (scan_user bob)\<lparr>Email := ''bob@example.org'', Version := 4\<rparr>),
      two_users\<lparr>users := [alice, bob\<lparr>row_email := ''bob@example.org'', row_version := 4\<rparr>]\<rparr>)"
  by (simp add: Update_def exec_update_def two_users_def alice_def bob_def scan_user_def
      update_row_def Let_def)

theorem Update_compare_and_swap_witness:
  "Update two_users ((scan_user bob)\<lparr>Email := ''bob@example.org''\<rparr>) =
     ((None, (scan_user bob)\<lparr>Email := ''bob@example.org'', Version := 4\<rparr>),
      two_users\<lparr>users := [alice, bob\<lparr>row_email := ''bob@example.org'', row_version := 4\<rparr>]\<rparr>) \<and>
   Version ((scan_user bob)\<lparr>Email := ''bob@example.org'', Version := 4\<rparr>) =
     Version (scan_user bob) + 1 \<and>
   users (two_users\<lparr>users := [alice, bob\<lparr>row_email := ''bob@example.org'', row_version := 4\<rparr>]\<rparr>) ! 0
     = users two_users ! 0 \<and>
   row_version
     (users (two_users\<lparr>users := [alice, bob\<lparr>row_email := ''bob@example.org'', row_version := 4\<rparr>]\<rparr>) ! 1)
     = row_version (users two_users ! 1) + 1"
  using Update_compare_and_swap [OF Update_bob] Update_bob
  by (simp add: two_users_def alice_def bob_def scan_user_def)

text \<open>
  C3. The store reports the duplicate email of an \<open>Update\<close> by the constraint
  \<^verbatim>\<open>users_email_key\<close>, the name that \<open>Insert\<close> tests for; \<open>Update\<close> tests for
  \<^verbatim>\<open>user_email_key\<close>, and so returns the store's error as it came where \<open>Insert\<close>, on the
  same violation, returns \<open>ErrDuplicateEmail\<close>. Here Bob's email is updated to Alice's.
  An \<open>Update\<close> of Bob at a version that his row no longer has returns \<open>ErrEditConflict\<close>.
\<close>

theorem Update_duplicate_email_is_passed_through:
  "Update two_users ((scan_user bob)\<lparr>Email := ''alice@example.com''\<rparr>) =
     ((Some (Store (DriverError (unique_violation ''users_email_key''))),
       (scan_user bob)\<lparr>Email := ''alice@example.com''\<rparr>), two_users) \<and>
   Insert two_users (carol\<lparr>Email := ''alice@example.com''\<rparr>) =
     ((Some ErrDuplicateEmail, carol\<lparr>Email := ''alice@example.com''\<rparr>), two_users) \<and>
   Update two_users ((scan_user bob)\<lparr>Version := 2\<rparr>) =
     ((Some ErrEditConflict, (scan_user bob)\<lparr>Version := 2\<rparr>), two_users)"
  by (simp add: Update_def Insert_def exec_update_def exec_insert_def two_users_def alice_def
      bob_def carol_def scan_user_def update_row_def Let_def unique_violation_def
      users_email_key_def)

lemma set_joined_for_token:
  "set (joined_for_token db hash scope now) =
     {u \<in> set (users db). \<exists>t\<in>set (tokens db). row_id u = tok_user_id t \<and> tok_hash t = hash \<and>
        tok_scope t = scope \<and> now < tok_expiry t}"
  by (auto simp: joined_for_token_def)

lemma select_for_token_Inr:
  assumes "exec_select_for_token db hash scope now = Inr u"
  shows "\<exists>t\<in>set (tokens db). u \<in> set (users db) \<and> row_id u = tok_user_id t \<and>
           tok_hash t = hash \<and> tok_scope t = scope \<and> now < tok_expiry t"
proof -
  from assms obtain others where "joined_for_token db hash scope now = u # others"
    by (auto simp: exec_select_for_token_def split: option.splits list.splits)
  then have "u \<in> set (joined_for_token db hash scope now)" by simp
  then show ?thesis unfolding set_joined_for_token by blast
qed

lemma select_for_token_joined:
  assumes "fault db = None" and "u \<in> set (users db)" and "t \<in> set (tokens db)"
    and "row_id u = tok_user_id t" and "tok_hash t = hash" and "tok_scope t = scope"
    and "now < tok_expiry t"
  shows "\<exists>r. exec_select_for_token db hash scope now = Inr r"
proof -
  from assms have "u \<in> set (joined_for_token db hash scope now)"
    unfolding set_joined_for_token by blast
  then have "joined_for_token db hash scope now \<noteq> []" by auto
  with assms(1) show ?thesis
    by (auto simp: exec_select_for_token_def split: list.splits)
qed

lemma select_for_token_no_binding:
  assumes "fault db = None"
    and "\<not> (\<exists>t\<in>set (tokens db). tok_hash t = hash \<and> tok_scope t = scope \<and> now < tok_expiry t)"
  shows "exec_select_for_token db hash scope now = Inl ErrNoRows"
proof -
  from assms(2) have "set (joined_for_token db hash scope now) = {}"
    unfolding set_joined_for_token by blast
  then have "joined_for_token db hash scope now = []" by simp
  with assms(1) show ?thesis
    by (simp add: exec_select_for_token_def)
qed

text \<open>
  C6. \<open>GetForToken\<close> looks the token up by its SHA-256 digest. The user it returns has the
  id, creation time, name, email, password hash, activation and version of a row of
  \<open>users\<close>, and that row is joined by its id to a binding whose hash is that digest, whose
  scope is the given scope and whose expiry is greater than the current time; the
  plaintext of the user's password is nil. It returns a user whenever such a row and
  binding exist. When no binding meets the three conditions it returns
  \<open>ErrRecordNotFound\<close>, whichever fails. Any other error of the store comes back as it is.
\<close>

theorem GetForToken_resolves_binding:
  "(\<forall>user. GetForToken Sum256 now db scope plaintext = Inr user \<longrightarrow>
      (\<exists>t\<in>set (tokens db). \<exists>r\<in>set (users db).
         tok_hash t = Sum256 plaintext \<and> tok_scope t = scope \<and> now < tok_expiry t \<and>
         row_id r = tok_user_id t \<and>
         user = \<lparr>ID = tok_user_id t, CreatedAt = row_created_at r, Name = row_name r,
                 Email = row_email r,
                 Password = \<lparr>PlainText = None, Hash = row_password_hash r\<rparr>,
                 Activated = row_activated r, Version = row_version r\<rparr>)) \<and>
   (fault db = None \<and>
    (\<exists>t\<in>set (tokens db). \<exists>r\<in>set (users db).
         tok_hash t = Sum256 plaintext \<and> tok_scope t = scope \<and> now < tok_expiry t \<and>
         row_id r = tok_user_id t) \<longrightarrow>
      (\<exists>user. GetForToken Sum256 now db scope plaintext = Inr user)) \<and>
   (fault db = None \<and>
    \<not> (\<exists>t\<in>set (tokens db).
         tok_hash t = Sum256 plaintext \<and> tok_scope t = scope \<and> now < tok_expiry t) \<longrightarrow>
      GetForToken Sum256 now db scope plaintext = Inl ErrRecordNotFound) \<and>
   (\<forall>message. fault db = Some message \<longrightarrow>
      GetForToken Sum256 now db scope plaintext = Inl (Store (DriverError message)))"
proof (intro conjI allI impI)
  fix user
  assume "GetForToken Sum256 now db scope plaintext = Inr user"
  then obtain r where sel: "exec_select_for_token db (Sum256 plaintext) scope now = Inr r"
    and user: "user = scan_user r"
    by (auto simp: GetForToken_def Let_def split: sum.splits if_splits)
  from select_for_token_Inr [OF sel] obtain t where t: "t \<in> set (tokens db)"
    and r: "r \<in> set (users db)" and join: "row_id r = tok_user_id t"
    and conds: "tok_hash t = Sum256 plaintext" "tok_scope t = scope" "now < tok_expiry t"
    by blast
  from user join have
    "user = \<lparr>ID = tok_user_id t, CreatedAt = row_created_at r, Name = row_name r,
             Email = row_email r,
             Password = \<lparr>PlainText = None, Hash = row_password_hash r\<rparr>,
             Activated = row_activated r, Version = row_version r\<rparr>"
    by (simp add: scan_user_def)
  with t r join conds
  show "\<exists>t\<in>set (tokens db). \<exists>r\<in>set (users db).
         tok_hash t = Sum256 plaintext \<and> tok_scope t = scope \<and> now < tok_expiry t \<and>
         row_id r = tok_user_id t \<and>
         user = \<lparr>ID = tok_user_id t, CreatedAt = row_created_at r, Name = row_name r,
                 Email = row_email r,
                 Password = \<lparr>PlainText = None, Hash = row_password_hash r\<rparr>,
                 Activated = row_activated r, Version = row_version r\<rparr>"
    by blast
next
  assume "fault db = None \<and>
    (\<exists>t\<in>set (tokens db). \<exists>r\<in>set (users db).
         tok_hash t = Sum256 plaintext \<and> tok_scope t = scope \<and> now < tok_expiry t \<and>
         row_id r = tok_user_id t)"
  then obtain r where "exec_select_for_token db (Sum256 plaintext) scope now = Inr r"
    using select_for_token_joined [of db _ _ "Sum256 plaintext" scope now] by blast
  then show "\<exists>user. GetForToken Sum256 now db scope plaintext = Inr user"
    by (simp add: GetForToken_def)
next
  assume "fault db = None \<and>
    \<not> (\<exists>t\<in>set (tokens db).
         tok_hash t = Sum256 plaintext \<and> tok_scope t = scope \<and> now < tok_expiry t)"
  then have "exec_select_for_token db (Sum256 plaintext) scope now = Inl ErrNoRows"
    using select_for_token_no_binding [of db "Sum256 plaintext" scope now] by blast
  then show "GetForToken Sum256 now db scope plaintext = Inl ErrRecordNotFound"
    by (simp add: GetForToken_def)
next
  fix message
  assume "fault db = Some message"
  then show "GetForToken Sum256 now db scope plaintext = Inl (Store (DriverError message))"
    by (simp add: GetForToken_def exec_select_for_token_def)
qed

theorem GetForToken_resolves_binding_witness:
  "GetForToken tagged 4000 two_users ''authentication'' ''T0KEN'' =
     Inr \<lparr>ID = 2, CreatedAt = 200, Name = ''Bob'', Email = ''bob@example.com'',
          Password = \<lparr>PlainText = None, Hash = Some ''$2a$bobpass''\<rparr>,
          Activated = False, Version = 3\<rparr> \<and>
   GetForToken tagged 4000 two_users ''authentication'' ''T0KEM'' = Inl ErrRecordNotFound \<and>
   GetForToken tagged 4000 two_users ''activation'' ''T0KEN'' = Inl ErrRecordNotFound \<and>
   GetForToken tagged 5000 two_users ''authentication'' ''T0KEN'' = Inl ErrRecordNotFound \<and>
   GetForToken tagged 4000 (two_users\<lparr>fault := Some ''context deadline exceeded''\<rparr>)
     ''authentication'' ''T0KEN'' = Inl (Store (DriverError ''context deadline exceeded''))"
  using
    GetForToken_resolves_binding [of tagged 4000 two_users "''authentication''" "''T0KEN''"]
    GetForToken_resolves_binding [of tagged 4000 two_users "''authentication''" "''T0KEM''"]
    GetForToken_resolves_binding [of tagged 4000 two_users "''activation''" "''T0KEN''"]
    GetForToken_resolves_binding [of tagged 5000 two_users "''authentication''" "''T0KEN''"]
    GetForToken_resolves_binding [of tagged 4000
      "two_users\<lparr>fault := Some ''context deadline exceeded''\<rparr>" "''authentication''" "''T0KEN''"]
  by (auto simp: two_users_def tagged_def alice_def bob_def)

section \<open>Validation of a user\<close>

lemma ValidateUser_checks:
  "fst (ValidateUser V CommonPasswords v user) =
     apply_rules V v
       (name_rules (Name user) @ email_rules (MatchesEmailRX V) (Email user) @
        (case PlainText (Password user) of
           None \<Rightarrow> []
         | Some plain \<Rightarrow> password_rules CommonPasswords plain))"
  by (simp add: ValidateUser_def ValidateEmail_def ValidatePassowrdPlaintext_def NotIn_def
      apply_rules_def name_rules_def email_rules_def password_rules_def Let_def
      split: option.splits)

lemma ValidateUser_end:
  "snd (ValidateUser V CommonPasswords v user) =
     (if Hash (Password user) = None then Panic ''missing password hash for user''
      else Return ())"
  by (simp add: ValidateUser_def Let_def)

text \<open>
  C8. \<open>ValidateUser\<close> applies the name rules (non-empty, at most 500 bytes), then the
  email rules (non-empty, matches the email pattern), then the rules of the plaintext
  password (non-empty, at least 8 and at most 72 bytes, not in the denylist) when the
  plaintext is present and no rule of the password when it is nil. For a user with a nil
  plaintext and a hash it returns, the validator holding the checks of name and email only.
\<close>

theorem ValidateUser_rules:
  "fst (ValidateUser V CommonPasswords v user) =
     apply_rules V v
       (name_rules (Name user) @ email_rules (MatchesEmailRX V) (Email user) @
        (case PlainText (Password user) of
           None \<Rightarrow> []
         | Some plain \<Rightarrow> password_rules CommonPasswords plain)) \<and>
   (PlainText (Password user) = None \<and> Hash (Password user) \<noteq> None \<longrightarrow>
      ValidateUser V CommonPasswords v user =
        (apply_rules V v (name_rules (Name user) @ email_rules (MatchesEmailRX V) (Email user)),
         Return ()))"
proof (intro conjI impI)
  show "fst (ValidateUser V CommonPasswords v user) =
     apply_rules V v
       (name_rules (Name user) @ email_rules (MatchesEmailRX V) (Email user) @
        (case PlainText (Password user) of
           None \<Rightarrow> []
         | Some plain \<Rightarrow> password_rules CommonPasswords plain))"
    by (rule ValidateUser_checks)
next
  assume "PlainText (Password user) = None \<and> Hash (Password user) \<noteq> None"
  with ValidateUser_checks [of V CommonPasswords v user]
    ValidateUser_end [of V CommonPasswords v user]
  show "ValidateUser V CommonPasswords v user =
        (apply_rules V v (name_rules (Name user) @ email_rules (MatchesEmailRX V) (Email user)),
         Return ())"
    by (simp add: prod_eq_iff)
qed

theorem ValidateUser_rules_witness:
  "ValidateUser failures [''password'', ''12345678''] [] (scan_user bob) = ([], Return ()) \<and>
   ValidateUser failures [''password'', ''12345678''] []
     ((scan_user bob)\<lparr>Email := ''bob'', Password := \<lparr>PlainText = Some ''12345678'', Hash = Some ''$2a$12345678''\<rparr>\<rparr>) =
     ([(''email'', ''must be a valid email address''), (''Password'', ''Password is too common'')],
      Return ())"
  using
    ValidateUser_rules [of failures "[''password'', ''12345678'']" "[]" "scan_user bob"]
    ValidateUser_rules [of failures "[''password'', ''12345678'']" "[]"
      "(scan_user bob)\<lparr>Email := ''bob'', Password := \<lparr>PlainText = Some ''12345678'', Hash = Some ''$2a$12345678''\<rparr>\<rparr>"]
    ValidateUser_end [of failures "[''password'', ''12345678'']" "[]"
      "(scan_user bob)\<lparr>Email := ''bob'', Password := \<lparr>PlainText = Some ''12345678'', Hash = Some ''$2a$12345678''\<rparr>\<rparr>"]
  by (simp add: prod_eq_iff failures_def scan_user_def bob_def apply_rules_def name_rules_def
      email_rules_def password_rules_def)

text \<open>
  C5, as the code has it. \<open>ValidateUser\<close> panics exactly when the hash of the user's
  password is nil, whatever the checks before found. \<open>Insert\<close> makes no check of the hash:
  when the store has no fault and no row has the user's email, it returns nil, whatever
  the hash is.
\<close>

theorem ValidateUser_panics_without_hash:
  "(snd (ValidateUser V CommonPasswords v user) = Panic ''missing password hash for user'') =
     (Hash (Password user) = None) \<and>
   (snd (ValidateUser V CommonPasswords v user) = Return ()) = (Hash (Password user) \<noteq> None) \<and>
   (fault db = None \<and> Email user \<notin> set (map row_email (users db)) \<longrightarrow>
      fst (fst (Insert db user)) = None)"
  by (simp add: ValidateUser_end Insert_def exec_insert_def)

theorem ValidateUser_panics_without_hash_witness:
  "ValidateUser failures [] [] carol = ([], Panic ''missing password hash for user'') \<and>
   fst (fst (Insert two_users (scan_user bob\<lparr>Email := ''robert@example.com''\<rparr>))) = None"
  using
    ValidateUser_panics_without_hash [of failures "[]" "[]" carol two_users]
    ValidateUser_panics_without_hash [of failures "[]" "[]"
       "scan_user bob\<lparr>Email := ''robert@example.com''\<rparr>" two_users]
    ValidateUser_checks [of failures "[]" "[]" carol]
  by (simp add: prod_eq_iff failures_def carol_def apply_rules_def name_rules_def
      email_rules_def two_users_def alice_def bob_def scan_user_def)

text \<open>
  \<open>Insert\<close> of Carol, whose password has no hash, into the store of two users: it returns
  nil, Carol has her id, and her row is stored with no hash.
\<close>

theorem Insert_without_hash_counterexample:
  "Hash (Password carol) = None \<and>
   Insert two_users carol =
     ((None, carol\<lparr>ID := 3, CreatedAt := 1000, Version := 1\<rparr>),
      two_users\<lparr>users := [alice, bob,
          \<lparr>row_id = 3, row_created_at = 1000, row_name = ''Carol'',
           row_email = ''carol@example.com'', row_password_hash = None,
           row_activated = False, row_version = 1\<rparr>],
        next_id := 4\<rparr>)"
  by (simp add: Insert_def exec_insert_def two_users_def alice_def bob_def carol_def)

section \<open>Set, then Matches\<close>









section \<open>Pagination metadata\<close>

lemma exponent_bounds:
  assumes "0 < x"
  shows "2 powi exponent x \<le> x" and "x < 2 powi (exponent x + 1)"
proof -
  obtain p q where pq: "quotient_of x = (p, q)" by (cases "quotient_of x")
  then have q: "0 < q" by (rule quotient_of_denom_pos)
  from pq have x: "x = of_int p / of_int q" by (rule quotient_of_div)
  with assms q have p: "0 < p" by (simp add: zero_less_divide_iff)
  define k where "k = bitlen p - bitlen q"
  from bitlen_bounds [OF p] have p1: "2 ^ nat (bitlen p - 1) \<le> p" and p2: "p < 2 ^ nat (bitlen p)"
    by simp_all
  from bitlen_bounds [OF q] have q1: "2 ^ nat (bitlen q - 1) \<le> q" and q2: "q < 2 ^ nat (bitlen q)"
    by simp_all
  from p have bp: "1 \<le> bitlen p" using bitlen_eq_zero_iff [of p] bitlen_nonneg [of p] by linarith
  from q have bq: "1 \<le> bitlen q" using bitlen_eq_zero_iff [of q] bitlen_nonneg [of q] by linarith
  have P1: "(2::rat) powi (bitlen p - 1) \<le> of_int p"
  proof -
    have "(of_int (2 ^ nat (bitlen p - 1)) :: rat) \<le> of_int p" using p1 by (simp only: of_int_le_iff)
    then show ?thesis using bp by (simp add: power_int_nonneg_exp)
  qed
  have P2: "(of_int p :: rat) < 2 powi (bitlen p)"
  proof -
    have "(of_int p :: rat) < of_int (2 ^ nat (bitlen p))" using p2 by (simp only: of_int_less_iff)
    then show ?thesis using bp by (simp add: power_int_nonneg_exp)
  qed
  have Q1: "(2::rat) powi (bitlen q - 1) \<le> of_int q"
  proof -
    have "(of_int (2 ^ nat (bitlen q - 1)) :: rat) \<le> of_int q" using q1 by (simp only: of_int_le_iff)
    then show ?thesis using bq by (simp add: power_int_nonneg_exp)
  qed
  have Q2: "(of_int q :: rat) < 2 powi (bitlen q)"
  proof -
    have "(of_int q :: rat) < of_int (2 ^ nat (bitlen q))" using q2 by (simp only: of_int_less_iff)
    then show ?thesis using bq by (simp add: power_int_nonneg_exp)
  qed
  have lower: "2 powi (k - 1) \<le> x"
  proof -
    have "(2::rat) powi (k - 1) = 2 powi (bitlen p - 1) / 2 powi (bitlen q)"
      by (simp add: k_def power_int_diff)
    also have "\<dots> \<le> of_int p / 2 powi (bitlen q)"
      using P1 by (simp add: divide_right_mono)
    also have "\<dots> \<le> of_int p / of_int q"
      using Q2 p q by (simp add: frac_le)
    finally show ?thesis by (simp add: x)
  qed
  have upper: "x < 2 powi (k + 1)"
  proof -
    have "x = of_int p / of_int q" by (rule x)
    also have "\<dots> < 2 powi (bitlen p) / of_int q"
      using P2 q by (simp add: divide_strict_right_mono)
    also have "\<dots> \<le> 2 powi (bitlen p) / 2 powi (bitlen q - 1)"
      using Q1 by (simp add: frac_le)
    also have "\<dots> = 2 powi (k + 1)"
      by (simp add: k_def power_int_diff [symmetric] algebra_simps)
    finally show ?thesis .
  qed
  have e: "exponent x = (if 2 powi k \<le> x then k else k - 1)"
    by (simp add: exponent_def pq k_def)
  show "2 powi exponent x \<le> x" using lower by (simp add: e)
  show "x < 2 powi (exponent x + 1)" using upper by (auto simp: e not_le)
qed

lemma round_half_even_error: "\<bar>of_int (round_half_even m) - m\<bar> \<le> 1 / 2"
proof -
  have "of_int \<lfloor>m\<rfloor> \<le> m" "m < of_int \<lfloor>m\<rfloor> + 1" by linarith+
  then show ?thesis
    by (auto simp: round_half_even_def Let_def abs_le_iff)
qed

lemma round_half_even_of_int [simp]: "round_half_even (of_int n) = n"
  by (simp add: round_half_even_def)

lemma round_half_even_ge:
  assumes "of_int n \<le> m"
  shows "n \<le> round_half_even m"
proof -
  from assms have "n \<le> \<lfloor>m\<rfloor>" by (simp add: le_floor_iff)
  then show ?thesis by (auto simp: round_half_even_def Let_def)
qed

lemma round53_pos:
  assumes "0 < x"
  shows "round53 x =
           of_int (round_half_even (x / 2 powi (exponent x - 52))) * 2 powi (exponent x - 52)"
  using assms by (simp add: round53_def Let_def)

lemma round53_minus: "round53 (- x) = - round53 x"
  by (simp add: round53_def Let_def sgn_minus)

lemma round53_error:
  assumes "0 < x"
  shows "\<bar>round53 x - x\<bar> \<le> x / 2 ^ 53"
proof -
  define u :: rat where "u = 2 powi (exponent x - 52)"
  have u: "0 < u" by (simp add: u_def)
  have "round53 x - x = (of_int (round_half_even (x / u)) - x / u) * u"
    using u by (simp add: round53_pos [OF assms] u_def [symmetric] algebra_simps)
  then have "\<bar>round53 x - x\<bar> = \<bar>of_int (round_half_even (x / u)) - x / u\<bar> * u"
    using u by (simp add: abs_mult)
  also have "\<dots> \<le> 1 / 2 * u"
    using round_half_even_error [of "x / u"] u by (simp add: mult_right_mono)
  also have "\<dots> = 2 powi exponent x / 2 ^ 53"
    by (simp add: u_def power_int_diff)
  also have "\<dots> \<le> x / 2 ^ 53"
    using exponent_bounds(1) [OF assms] by (simp add: divide_right_mono)
  finally show ?thesis .
qed

lemma round53_lower:
  assumes "0 < x"
  shows "2 powi exponent x \<le> round53 x"
proof -
  define u :: rat where "u = 2 powi (exponent x - 52)"
  have u: "0 < u" by (simp add: u_def)
  have "(2::rat) powi exponent x = 2 ^ 52 * u"
    by (simp add: u_def power_int_diff)
  with exponent_bounds(1) [OF assms] u have "(of_int (2 ^ 52) :: rat) \<le> x / u"
    by (simp add: pos_le_divide_eq)
  then have "(2 ^ 52 :: int) \<le> round_half_even (x / u)"
    by (rule round_half_even_ge)
  then have "(of_int (2 ^ 52) :: rat) \<le> of_int (round_half_even (x / u))"
    by (simp only: of_int_le_iff)
  then have "2 ^ 52 * u \<le> of_int (round_half_even (x / u)) * u"
    using u by (simp add: mult_right_mono)
  then show ?thesis
    by (simp add: round53_pos [OF assms] u_def [symmetric] \<open>2 powi exponent x = 2 ^ 52 * u\<close>)
qed

lemma exponent_less:
  assumes "0 < x" and "x < 2 powi n"
  shows "exponent x < n"
proof (rule ccontr)
  assume "\<not> exponent x < n"
  then have "(2::rat) powi n \<le> 2 powi exponent x"
    by (simp add: power_int_increasing)
  with exponent_bounds(1) [OF assms(1)] assms(2) show False by linarith
qed

lemma exponent_ge:
  assumes "0 < x" and "2 powi n \<le> x"
  shows "n \<le> exponent x"
proof (rule ccontr)
  assume "\<not> n \<le> exponent x"
  then have "(2::rat) powi (exponent x + 1) \<le> 2 powi n"
    by (simp add: power_int_increasing)
  with exponent_bounds(2) [OF assms(1)] assms(2) show False by linarith
qed

lemma round53_int_exact:
  assumes "0 < n" and "n < 2 ^ 53"
  shows "round53 (of_int n) = of_int n"
proof -
  have pos: "(0::rat) < of_int n" using assms(1) by simp
  have "(of_int n :: rat) < of_int (2 ^ 53)" using assms(2) by (simp only: of_int_less_iff)
  then have "(of_int n :: rat) < 2 powi 53" by simp
  from exponent_less [OF pos this] have e: "exponent (of_int n) \<le> 52" by simp
  define d where "d = nat (52 - exponent (rat_of_int n))"
  have "(2::rat) powi (exponent (of_int n) - 52) = 1 / 2 ^ d"
    using e by (simp add: d_def power_int_minus_divide [symmetric] power_int_nonneg_exp [symmetric])
  then have u: "(2::rat) powi (exponent (of_int n) - 52) = 1 / of_int (2 ^ d)" by simp
  have "of_int n / (1 / of_int (2 ^ d) :: rat) = of_int (n * 2 ^ d)" by simp
  then show ?thesis
    by (simp only: round53_pos [OF pos] u round_half_even_of_int) simp
qed

lemma round53_int_ge:
  assumes "2 ^ 53 \<le> n"
  shows "\<exists>m. round53 (of_int n) = of_int m \<and> 2 ^ 53 \<le> m"
proof -
  have pos: "(0::rat) < of_int n" using assms by simp
  have "(of_int (2 ^ 53) :: rat) \<le> of_int n" using assms by (simp only: of_int_le_iff)
  then have "(2::rat) powi 53 \<le> of_int n" by simp
  from exponent_ge [OF pos this] have e: "53 \<le> exponent (of_int n)" .
  define d where "d = nat (exponent (rat_of_int n) - 52)"
  have u: "(2::rat) powi (exponent (of_int n) - 52) = of_int (2 ^ d)"
    using e by (simp add: d_def power_int_nonneg_exp)
  define m where "m = round_half_even (of_int n / of_int (2 ^ d)) * 2 ^ d"
  have r: "round53 (of_int n) = of_int m"
    by (simp only: round53_pos [OF pos] u m_def) simp
  have "(2::rat) powi 53 \<le> 2 powi exponent (of_int n)"
    using e by (intro power_int_increasing) simp_all
  with round53_lower [OF pos] r have "(of_int (2 ^ 53) :: rat) \<le> of_int m" by simp
  then have "2 ^ 53 \<le> m" by (simp only: of_int_le_iff)
  with r show ?thesis by blast
qed

lemma round53_quotient:
  fixes a b :: int
  assumes "0 < a" and "a < 2 ^ 53" and "0 < b"
  shows "\<lfloor>round53 (of_int a / of_int b)\<rfloor> = \<lfloor>(of_int a / of_int b :: rat)\<rfloor>"
    and "\<lceil>round53 (of_int a / of_int b)\<rceil> = \<lceil>(of_int a / of_int b :: rat)\<rceil>"
proof -
  define y :: rat where "y = of_int a / of_int b"
  have "\<lfloor>round53 y\<rfloor> = \<lfloor>y\<rfloor> \<and> \<lceil>round53 y\<rceil> = \<lceil>y\<rceil>"
  proof (cases "b dvd a")
    case True
    then obtain c where c: "a = b * c" by (rule dvdE)
    with assms have "0 < c" by (simp add: zero_less_mult_iff)
    moreover have "c \<le> a" using c assms \<open>0 < c\<close> by (simp add: mult_le_cancel_right1)
    ultimately have "round53 (of_int c) = of_int c"
      using assms(2) by (intro round53_int_exact) simp_all
    moreover have "y = of_int c" using c assms(3) by (simp add: y_def)
    ultimately show ?thesis by simp
  next
    case False
    define k where "k = a div b"
    define r where "r = a mod b"
    have "r \<noteq> 0" using False by (simp add: r_def mod_eq_0_iff_dvd)
    moreover have "0 \<le> r" using assms(3) by (simp add: r_def)
    ultimately have "0 < r" by linarith
    moreover have "r < b" using assms(3) by (simp add: r_def)
    ultimately have r: "0 < r" "r < b" by blast+
    have a: "a = k * b + r" by (simp add: k_def r_def)
    have bpos: "(0::rat) < of_int b" using assms(3) by simp
    have y: "y = of_int k + of_int r / of_int b"
      using assms(3) by (simp add: y_def a add_divide_distrib)
    have ypos: "0 < y" using assms by (simp add: y_def)
    have "(of_int a :: rat) < of_int (2 ^ 53)" using assms(2) by (simp only: of_int_less_iff)
    then have "(of_int a :: rat) / 2 ^ 53 < 1" by simp
    then have "y / 2 ^ 53 < 1 / of_int b"
      using bpos by (simp add: y_def field_simps)
    with round53_error [OF ypos] have err: "\<bar>round53 y - y\<bar> < 1 / of_int b" by linarith
    have "(of_int 1 :: rat) \<le> of_int r" using r(1) by simp
    then have lo: "1 / of_int b \<le> (of_int r :: rat) / of_int b"
      using bpos by (simp add: divide_right_mono)
    have "(of_int r :: rat) + of_int 1 \<le> of_int b"
      using r(2) by simp
    then have "((of_int r :: rat) + 1) / of_int b \<le> 1"
      using bpos by (simp add: pos_divide_le_eq)
    then have hi: "(of_int r :: rat) / of_int b + 1 / of_int b \<le> 1"
      by (simp add: add_divide_distrib)
    have 1: "of_int k < round53 y" using err lo y by linarith
    have 2: "round53 y < of_int k + 1" using err hi y by linarith
    have inv: "(0::rat) < 1 / of_int b" using bpos by simp
    have 3: "of_int k < y" using lo inv y by linarith
    have 4: "y < of_int k + 1" using hi inv y by linarith
    have "\<lfloor>round53 y\<rfloor> = k" by (rule floor_unique) (use 1 2 in simp_all)
    moreover have "\<lfloor>y\<rfloor> = k" by (rule floor_unique) (use 3 4 in simp_all)
    moreover have "\<lceil>round53 y\<rceil> = k + 1" by (rule ceiling_unique) (use 1 2 in simp_all)
    moreover have "\<lceil>y\<rceil> = k + 1" by (rule ceiling_unique) (use 3 4 in simp_all)
    ultimately show ?thesis by simp
  qed
  then show "\<lfloor>round53 (of_int a / of_int b)\<rfloor> = \<lfloor>(of_int a / of_int b :: rat)\<rfloor>"
    and "\<lceil>round53 (of_int a / of_int b)\<rceil> = \<lceil>(of_int a / of_int b :: rat)\<rceil>"
    by (simp_all add: y_def)
qed

lemma float64_of_pagesize:
  assumes "1 \<le> b"
  shows "\<exists>m. float64_of_int b = of_int m \<and> 0 < m \<and> (m = b \<or> 2 ^ 53 \<le> m \<and> 2 ^ 53 \<le> b)"
proof (cases "b < 2 ^ 53")
  case True
  with assms have "round53 (of_int b) = of_int b" by (intro round53_int_exact) simp_all
  with assms show ?thesis by (intro exI [of _ b]) (simp add: float64_of_int_def)
next
  case False
  then have b: "2 ^ 53 \<le> b" by simp
  from round53_int_ge [OF b] obtain m where "round53 (of_int b) = of_int m" "2 ^ 53 \<le> m"
    by blast
  with b show ?thesis by (intro exI [of _ m]) (simp add: float64_of_int_def)
qed

lemma quotient_small:
  fixes a m :: int
  assumes "0 < a" and "a < 2 ^ 53" and "2 ^ 53 \<le> m"
  shows "\<lfloor>(of_int a / of_int m :: rat)\<rfloor> = 0" and "\<lceil>(of_int a / of_int m :: rat)\<rceil> = 1"
proof -
  have m: "(0::rat) < of_int m" using assms(3) by simp
  have "(of_int a :: rat) < of_int m" using assms by simp
  then have 1: "(of_int a / of_int m :: rat) < 1" using m by simp
  have 2: "(0::rat) < of_int a / of_int m" using assms(1) m by simp
  show "\<lfloor>(of_int a / of_int m :: rat)\<rfloor> = 0"
    by (rule floor_unique) (use 1 2 in simp_all)
  show "\<lceil>(of_int a / of_int m :: rat)\<rceil> = 1"
    by (rule ceiling_unique) (use 1 2 in simp_all)
qed

lemma int_of_float64_int:
  assumes "- (2 ^ 63) \<le> n" and "n < 2 ^ 63"
  shows "int_of_float64 impl (Finite (of_int n)) = n"
proof -
  have "(of_int (- (2 ^ 63)) :: rat) \<le> of_int n" using assms(1) by (simp only: of_int_le_iff)
  moreover have "(of_int n :: rat) < of_int (2 ^ 63)" using assms(2) by (simp only: of_int_less_iff)
  ultimately show ?thesis by simp
qed

lemma last_page_pos:
  assumes "0 < a" and "a < 2 ^ 53" and "1 \<le> b"
  shows "int_of_float64 impl (Ceil (float64_div (float64_of_int a) (float64_of_int b))) =
           \<lceil>(of_int a / of_int b :: rat)\<rceil>"
proof -
  from float64_of_pagesize [OF assms(3)] obtain m where
    m: "float64_of_int b = of_int m" "0 < m" "m = b \<or> 2 ^ 53 \<le> m \<and> 2 ^ 53 \<le> b"
    by blast
  have a: "float64_of_int a = of_int a"
    using assms by (simp add: float64_of_int_def round53_int_exact)
  define n where "n = \<lceil>(of_int a / of_int m :: rat)\<rceil>"
  have same: "n = \<lceil>(of_int a / of_int b :: rat)\<rceil>"
    using m(3) quotient_small(2) [OF assms(1,2)] by (auto simp: n_def)
  have "(of_int a / of_int m :: rat) \<le> of_int a"
    using m(2) assms(1) by (simp add: pos_divide_le_eq mult_le_cancel_left1)
  then have "n \<le> a" by (simp add: n_def ceiling_le_iff)
  moreover have "0 < n" using m(2) assms(1) by (simp add: n_def)
  ultimately have range: "- (2 ^ 63) \<le> n" "n < 2 ^ 63"
    using assms(2) by simp_all
  have "Ceil (float64_div (float64_of_int a) (float64_of_int b)) = Finite (of_int n)"
    using m(2) by (simp add: a m(1) float64_div_def n_def round53_quotient(2) [OF assms(1,2) m(2)])
  with int_of_float64_int [OF range] same show ?thesis by simp
qed

lemma last_page_neg:
  assumes "a < 0" and "- (2 ^ 53) < a" and "1 \<le> b"
  shows "int_of_float64 impl (Ceil (float64_div (float64_of_int a) (float64_of_int b))) =
           \<lceil>(of_int a / of_int b :: rat)\<rceil>"
proof -
  from float64_of_pagesize [OF assms(3)] obtain m where
    m: "float64_of_int b = of_int m" "0 < m" "m = b \<or> 2 ^ 53 \<le> m \<and> 2 ^ 53 \<le> b"
    by blast
  define c where "c = - a"
  have c: "0 < c" "c < 2 ^ 53" "a = - c" using assms by (simp_all add: c_def)
  have a: "float64_of_int a = - of_int c"
    using c by (simp add: float64_of_int_def round53_minus round53_int_exact)
  define n where "n = \<lfloor>(of_int c / of_int m :: rat)\<rfloor>"
  have "n = \<lfloor>(of_int c / of_int b :: rat)\<rfloor>"
    using m(3) quotient_small(1) [OF c(1,2)] by (auto simp: n_def)
  then have same: "- n = \<lceil>(of_int a / of_int b :: rat)\<rceil>"
    by (simp add: c(3) ceiling_def)
  have "(of_int c / of_int m :: rat) \<le> of_int c"
    using m(2) c(1) by (simp add: pos_divide_le_eq mult_le_cancel_left1)
  then have "n \<le> c" unfolding n_def by linarith
  moreover have "0 \<le> n" using m(2) c(1) by (simp add: n_def)
  ultimately have range: "- (2 ^ 63) \<le> - n" "- n < 2 ^ 63"
    using c(2) by simp_all
  have "round53 (- of_int c / of_int m) = - round53 (of_int c / of_int m)"
    using round53_minus [of "of_int c / of_int m"] by simp
  then have "Ceil (float64_div (float64_of_int a) (float64_of_int b)) = Finite (of_int (- n))"
    using m(2)
    by (simp add: a m(1) float64_div_def n_def round53_quotient(1) [OF c(1,2) m(2)] ceiling_def)
  with int_of_float64_int [OF range] same show ?thesis by simp
qed

text \<open>
  C9, as the code has it. For \<open>pageSize \<ge> 1\<close> and a \<open>totalRecords\<close> of magnitude below
  \<open>2^53\<close>, where \<^verbatim>\<open>float64\<close> holds every integer: \<open>calculateMetadata\<close> returns the all-zero
  \<open>Metadata\<close> when \<open>totalRecords\<close> is 0, and otherwise the current page and the page size
  it was given, first page 1, last page the ceiling of \<open>totalRecords / pageSize\<close>, and
  \<open>totalRecords\<close>.
\<close>

lemma ceiling_real_rat:
  "\<lceil>real_of_int a / real_of_int b\<rceil> = \<lceil>rat_of_int a / rat_of_int b\<rceil>"
proof -
  have "real_of_int a / real_of_int b = of_rat (rat_of_int a / rat_of_int b)"
    by (simp add: of_rat_divide)
  then show ?thesis by (simp only: of_rat_ceiling)
qed

theorem calculateMetadata_last_page:
  assumes "1 \<le> pagesize" and "- (2 ^ 53) < totalRecords" and "totalRecords < 2 ^ 53"
  shows "calculateMetadata impl totalRecords page pagesize =
           (if totalRecords = 0
            then \<lparr>CurrentPage = 0, PageSize = 0, FirstPage = 0, LastPage = 0, TotalRecords = 0\<rparr>
            else \<lparr>CurrentPage = page, PageSize = pagesize, FirstPage = 1,
                  LastPage = \<lceil>real_of_int totalRecords / real_of_int pagesize\<rceil>,
                  TotalRecords = totalRecords\<rparr>)"
proof (cases "0 < totalRecords")
  case True
  with last_page_pos [OF True assms(3,1), of impl] show ?thesis
    by (simp add: calculateMetadata_def ceiling_real_rat)
next
  case False
  show ?thesis
  proof (cases "totalRecords = 0")
    case True
    then show ?thesis by (simp add: calculateMetadata_def)
  next
    case nonzero: False
    with \<open>\<not> 0 < totalRecords\<close> have "totalRecords < 0" by simp
    from last_page_neg [OF this assms(2,1), of impl] nonzero show ?thesis
      by (simp add: calculateMetadata_def ceiling_real_rat)
  qed
qed

theorem calculateMetadata_last_page_witness:
  "calculateMetadata amd64 95 2 20 =
     \<lparr>CurrentPage = 2, PageSize = 20, FirstPage = 1, LastPage = 5, TotalRecords = 95\<rparr> \<and>
   calculateMetadata amd64 0 1 20 =
     \<lparr>CurrentPage = 0, PageSize = 0, FirstPage = 0, LastPage = 0, TotalRecords = 0\<rparr>"
  using calculateMetadata_last_page [of 20 95 amd64 2]
    calculateMetadata_last_page [of 20 0 amd64 1]
  by simp

text \<open>
  \<open>2^53 + 1\<close> records on pages of one record: \<^verbatim>\<open>float64\<close> has no \<open>2^53 + 1\<close>, the
  conversion gives \<open>2^53\<close>, and that is the last page, one less than the ceiling.
\<close>

theorem calculateMetadata_2_53_counterexample:
  "LastPage (calculateMetadata amd64 9007199254740993 1 1) = 9007199254740992 \<and>
   \<lceil>real_of_int 9007199254740993 / real_of_int 1\<rceil> = 9007199254740993"
proof
  show "LastPage (calculateMetadata amd64 9007199254740993 1 1) = 9007199254740992"
    by code_simp
  show "\<lceil>real_of_int 9007199254740993 / real_of_int 1\<rceil> = 9007199254740993"
    by simp
qed


end
